theory Spec2Isabelle
  imports Main "HOL-Library.Word"
begin

section \<open>Data model of \<open>nomad/structs/host_volumes.go\<close>\<close>

text \<open>
  Go's \<open>int64\<close> and \<open>uint64\<close> are 64-bit words; \<open>int64\<close> values are compared through
  \<open>sint\<close>. A pointer \<open>*T\<close> is \<open>T option\<close> (\<open>None\<close> is \<open>nil\<close>), a slice \<open>[]T\<close>
  is \<open>T list option\<close> (\<open>None\<close> is the nil slice), and a function that can panic returns
  a \<open>result\<close>.
\<close>

type_synonym int64 = "64 word"
type_synonym uint64 = "64 word"
type_synonym 'a slice = "'a list option"

datatype 'a result = Panic | Return 'a

fun len :: "'a slice \<Rightarrow> nat" where
  "len None = 0"
| "len (Some xs) = length xs"

fun elems :: "'a slice \<Rightarrow> 'a list" where
  "elems None = []"
| "elems (Some xs) = xs"

text \<open>
  \<open>HostVolumeAttachmentMode\<close>, \<open>HostVolumeAccessMode\<close> and \<open>HostVolumeState\<close> are named
  string types: any string is a value of them.
\<close>

type_synonym HostVolumeState = string
type_synonym HostVolumeAttachmentMode = string
type_synonym HostVolumeAccessMode = string

definition HostVolumeStateUnknown :: HostVolumeState where
  "HostVolumeStateUnknown = ''''"
definition HostVolumeStatePending :: HostVolumeState where
  "HostVolumeStatePending = ''pending''"
definition HostVolumeStateReady :: HostVolumeState where
  "HostVolumeStateReady = ''ready''"
definition HostVolumeStateDeleted :: HostVolumeState where
  "HostVolumeStateDeleted = ''deleted''"

definition HostVolumeAttachmentModeUnknown :: HostVolumeAttachmentMode where
  "HostVolumeAttachmentModeUnknown = ''''"
definition HostVolumeAttachmentModeBlockDevice :: HostVolumeAttachmentMode where
  "HostVolumeAttachmentModeBlockDevice = ''block-device''"
definition HostVolumeAttachmentModeFilesystem :: HostVolumeAttachmentMode where
  "HostVolumeAttachmentModeFilesystem = ''file-system''"

definition HostVolumeAccessModeUnknown :: HostVolumeAccessMode where
  "HostVolumeAccessModeUnknown = ''''"
definition HostVolumeAccessModeSingleNodeReader :: HostVolumeAccessMode where
  "HostVolumeAccessModeSingleNodeReader = ''single-node-reader-only''"
definition HostVolumeAccessModeSingleNodeWriter :: HostVolumeAccessMode where
  "HostVolumeAccessModeSingleNodeWriter = ''single-node-writer''"
definition HostVolumeAccessModeMultiNodeReader :: HostVolumeAccessMode where
  "HostVolumeAccessModeMultiNodeReader = ''multi-node-reader-only''"
definition HostVolumeAccessModeMultiNodeSingleWriter :: HostVolumeAccessMode where
  "HostVolumeAccessModeMultiNodeSingleWriter = ''multi-node-single-writer''"
definition HostVolumeAccessModeMultiNodeMultiWriter :: HostVolumeAccessMode where
  "HostVolumeAccessModeMultiNodeMultiWriter = ''multi-node-multi-writer''"

record HostVolumeCapability =
  AttachmentMode :: HostVolumeAttachmentMode
  AccessMode :: HostVolumeAccessMode

text \<open>
  \<open>Constraint\<close> and \<open>AllocListStub\<close> are declared in \<open>structs.go\<close>, which is not among the
  sources. \<open>Constraint\<close> has its three string fields; of \<open>AllocListStub\<close> only the field
  \<open>ID\<close>, the one \<open>ValidateUpdate\<close> reads, is kept (as \<open>alloc_ID\<close>, \<open>ID\<close> being the
  field of \<open>HostVolume\<close>).
\<close>

record Constraint =
  LTarget :: string
  RTarget :: string
  Operand :: string

record AllocListStub =
  alloc_ID :: string


text \<open>
  The struct \<open>HostVolume\<close>. The four reference-typed fields are type parameters: the
  functions that only read a volume work on the value the references denote
  (\<open>HostVolume\<close>), \<open>Copy\<close> works on the references themselves (\<open>HostVolumeRef\<close>, below).
\<close>

record ('cs, 'ks, 'ps, 'as) HostVolume_struct =
  Namespace :: string
  ID :: string
  Name :: string
  PluginID :: string
  NodePool :: string
  NodeID :: string
  Constraints :: 'cs
  RequestedCapacityMinBytes :: int64
  RequestedCapacityMaxBytes :: int64
  CapacityBytes :: int64
  RequestedCapabilities :: 'ks
  Parameters :: 'ps
  HostPath :: string
  State :: HostVolumeState
  CreateIndex :: uint64
  CreateTime :: int64
  ModifyIndex :: uint64
  ModifyTime :: int64
  Allocations :: 'as

type_synonym HostVolume =
  "(Constraint option slice, HostVolumeCapability option slice,
    (string \<rightharpoonup> string) option, AllocListStub option slice) HostVolume_struct"

subsection \<open>Errors\<close>

text \<open>
  One constructor for each \<open>errors.New\<close> and \<open>fmt.Errorf\<close> of the file, carrying the
  arguments of the format string; \<open>MultiError\<close> is a non-nil \<open>*multierror.Error\<close> with
  its list \<open>Errors\<close>.
\<close>

datatype error =
    ErrInvalidID  \<comment> \<open>invalid ID\<close>
  | ErrMissingName  \<comment> \<open>missing name\<close>
  | ErrCapacityOrder int64 int64
      \<comment> \<open>capacity_max (%d) must be larger than capacity_min (%d)\<close>
  | ErrNoCapability  \<comment> \<open>must include at least one capability block\<close>
  | ErrNilCapability  \<comment> \<open>validate called on nil host volume capability\<close>
  | ErrInvalidAttachmentMode string  \<comment> \<open>invalid attachment mode: %q\<close>
  | ErrInvalidAccessMode string  \<comment> \<open>invalid access mode: %q\<close>
  | ErrInvalidConstraint string  \<comment> \<open>invalid constraint: %v\<close>
  | ErrDistinctConstraint string
      \<comment> \<open>invalid constraint %s: host volumes of the same name are always on distinct hosts\<close>
  | ErrVolumeInUse string  \<comment> \<open>cannot update a volume in use: claimed by allocs (%s)\<close>
  | ErrNodeIDUpdate  \<comment> \<open>node ID cannot be updated\<close>
  | ErrNodePoolUpdate  \<comment> \<open>node pool cannot be updated\<close>
  | ErrCapacityBelowProvisioned int64 int64
      \<comment> \<open>capacity_max (%d) cannot be less than existing provisioned capacity (%d)\<close>
  | MultiError "error list"

text \<open>
  The library \<open>go-multierror\<close>: \<open>Append\<close> allocates the multierror when it is nil and
  flattens an appended multierror one level; \<open>ErrorOrNil\<close> is nil for a nil or empty
  multierror.
\<close>

type_synonym multierror = "error list option"

fun multierror_Append :: "multierror \<Rightarrow> error \<Rightarrow> multierror" where
  "multierror_Append mErr (MultiError es) = Some (elems mErr @ es)"
| "multierror_Append mErr e = Some (elems mErr @ [e])"

fun ErrorOrNil :: "multierror \<Rightarrow> error option" where
  "ErrorOrNil None = None"
| "ErrorOrNil (Some []) = None"
| "ErrorOrNil (Some es) = Some (MultiError es)"


text \<open>The errors a returned \<open>error\<close> value reports: none for nil, the list of a multierror.\<close>

fun errors_of :: "error option \<Rightarrow> error list" where
  "errors_of None = []"
| "errors_of (Some (MultiError es)) = es"
| "errors_of (Some e) = [e]"

section \<open>\<open>HostVolumeCapability.Validate\<close>\<close>

fun HostVolumeCapability_Validate :: "HostVolumeCapability option \<Rightarrow> error option" where
  "HostVolumeCapability_Validate None = Some ErrNilCapability"
| "HostVolumeCapability_Validate (Some hvc) =
     (if \<not> (AttachmentMode hvc = HostVolumeAttachmentModeBlockDevice
             \<or> AttachmentMode hvc = HostVolumeAttachmentModeFilesystem)
      then Some (ErrInvalidAttachmentMode (AttachmentMode hvc))
      else if \<not> (AccessMode hvc = HostVolumeAccessModeSingleNodeReader
             \<or> AccessMode hvc = HostVolumeAccessModeSingleNodeWriter
             \<or> AccessMode hvc = HostVolumeAccessModeMultiNodeReader
             \<or> AccessMode hvc = HostVolumeAccessModeMultiNodeSingleWriter
             \<or> AccessMode hvc = HostVolumeAccessModeMultiNodeMultiWriter)
      then Some (ErrInvalidAccessMode (AccessMode hvc))
      else None)"

section \<open>\<open>HostVolume.Validate\<close>\<close>

text \<open>
  \<open>helper.IsUUID\<close> and \<open>Constraint.Validate\<close> are not among the sources; \<open>Validate\<close>
  takes them as parameters: \<open>IsUUID\<close> decides whether a string is a UUID, and
  \<open>Constraint_Validate\<close> gives the text of the error \<open>Constraint.Validate\<close> returns, or
  \<open>None\<close> for nil.
\<close>




section \<open>\<open>HostVolume.ValidateUpdate\<close>\<close>

text \<open>\<open>strings.Join\<close> of the Go standard library.\<close>

fun strings_Join :: "string list \<Rightarrow> string \<Rightarrow> string" where
  "strings_Join [] sep = ''''"
| "strings_Join [x] sep = x"
| "strings_Join (x # xs) sep = x @ sep @ strings_Join xs sep"

text \<open>
  \<open>helper.ConvertSlice(existing.Allocations, func(a *AllocListStub) string { return a.ID })\<close>:
  the function is applied to every element in order, and reading \<open>a.ID\<close> through a nil
  pointer panics.
\<close>

fun ConvertSlice_ID :: "AllocListStub option list \<Rightarrow> string list result" where
  "ConvertSlice_ID [] = Return []"
| "ConvertSlice_ID (None # as) = Panic"
| "ConvertSlice_ID (Some a # as) =
     (case ConvertSlice_ID as of Panic \<Rightarrow> Panic | Return ids \<Rightarrow> Return (alloc_ID a # ids))"

fun ValidateUpdate :: "HostVolume \<Rightarrow> HostVolume option \<Rightarrow> error option result" where
  "ValidateUpdate hv None = Return None"
| "ValidateUpdate hv (Some existing) =
     (case (if len (Allocations existing) > 0
            then (case ConvertSlice_ID (elems (Allocations existing)) of
                    Panic \<Rightarrow> Panic
                  | Return allocIDs \<Rightarrow>
                      Return (multierror_Append None
                                (ErrVolumeInUse (strings_Join allocIDs '', ''))))
            else Return None) of
        Panic \<Rightarrow> Panic
      | Return mErr \<Rightarrow>
          (let mErr = (if NodeID hv \<noteq> '''' \<and> NodeID hv \<noteq> NodeID existing
                       then multierror_Append mErr ErrNodeIDUpdate else mErr);
               mErr = (if NodePool hv \<noteq> '''' \<and> NodePool hv \<noteq> NodePool existing
                       then multierror_Append mErr ErrNodePoolUpdate else mErr);
               mErr = (if sint (RequestedCapacityMaxBytes hv) < sint (CapacityBytes existing)
                       then multierror_Append mErr
                              (ErrCapacityBelowProvisioned (RequestedCapacityMaxBytes hv)
                                 (CapacityBytes existing))
                       else mErr)
           in Return (ErrorOrNil mErr)))"

section \<open>\<open>HostVolume.CanonicalizeForUpdate\<close>\<close>

definition DefaultHostVolumePlugin :: string where
  "DefaultHostVolumePlugin = ''default''"

text \<open>
  The method updates \<open>hv\<close> in place; the model returns the updated volume. \<open>uuid\<close> is
  the string the call \<open>uuid.Generate()\<close> returns (the generator is not among the
  sources) and \<open>now\<close> is \<open>now.UnixNano()\<close>.
\<close>

fun CanonicalizeForUpdate ::
  "string \<Rightarrow> int64 \<Rightarrow> HostVolume \<Rightarrow> HostVolume option \<Rightarrow> HostVolume" where
  "CanonicalizeForUpdate uuid now hv None =
     (let hv = hv\<lparr>ID := uuid\<rparr>;
          hv = (if PluginID hv = '''' then hv\<lparr>PluginID := DefaultHostVolumePlugin\<rparr> else hv);
          hv = hv\<lparr>CapacityBytes := 0\<rparr>;
          hv = hv\<lparr>HostPath := ''''\<rparr>;
          hv = hv\<lparr>CreateTime := now\<rparr>
      in hv\<lparr>State := HostVolumeStatePending, ModifyTime := now, Allocations := None\<rparr>)"
| "CanonicalizeForUpdate uuid now hv (Some existing) =
     (let hv = hv\<lparr>PluginID := PluginID existing\<rparr>;
          hv = hv\<lparr>NodePool := NodePool existing\<rparr>;
          hv = hv\<lparr>NodeID := NodeID existing\<rparr>;
          hv = hv\<lparr>Constraints := Constraints existing\<rparr>;
          hv = hv\<lparr>CapacityBytes := CapacityBytes existing\<rparr>;
          hv = hv\<lparr>HostPath := HostPath existing\<rparr>;
          hv = hv\<lparr>CreateTime := CreateTime existing\<rparr>
      in hv\<lparr>State := HostVolumeStatePending, ModifyTime := now, Allocations := None\<rparr>)"

section \<open>\<open>HostVolume.Copy\<close> on an explicit store\<close>

text \<open>
  \<open>Copy\<close> is about sharing, so the references are modelled as they are: a pointer is an
  address or nil, a slice is the address of its backing array or nil (the slice spans the
  whole array), and a map value is the address of its table or nil. The store holds the
  objects, arrays and tables by address; every address holds some value, so that no
  pointer dangles. Addresses from \<open>next_addr\<close> on are unused, and allocation takes the
  next one.
\<close>

type_synonym addr = nat
type_synonym ptr = "addr option"

record heap =
  constraint_objs :: "addr \<Rightarrow> Constraint"
  capability_objs :: "addr \<Rightarrow> HostVolumeCapability"
  alloc_objs :: "addr \<Rightarrow> AllocListStub"
  arrays :: "addr \<Rightarrow> ptr list"
  string_maps :: "addr \<Rightarrow> (string \<rightharpoonup> string)"
  next_addr :: addr

type_synonym HostVolumeRef = "(ptr, ptr, ptr, ptr) HostVolume_struct"

definition new_constraint :: "heap \<Rightarrow> Constraint \<Rightarrow> ptr \<times> heap" where
  "new_constraint h c =
     (Some (next_addr h),
      h\<lparr>constraint_objs := (constraint_objs h)(next_addr h := c),
        next_addr := Suc (next_addr h)\<rparr>)"

definition new_capability :: "heap \<Rightarrow> HostVolumeCapability \<Rightarrow> ptr \<times> heap" where
  "new_capability h c =
     (Some (next_addr h),
      h\<lparr>capability_objs := (capability_objs h)(next_addr h := c),
        next_addr := Suc (next_addr h)\<rparr>)"

definition new_array :: "heap \<Rightarrow> ptr list \<Rightarrow> ptr \<times> heap" where
  "new_array h xs =
     (Some (next_addr h),
      h\<lparr>arrays := (arrays h)(next_addr h := xs), next_addr := Suc (next_addr h)\<rparr>)"

definition new_map :: "heap \<Rightarrow> (string \<rightharpoonup> string) \<Rightarrow> ptr \<times> heap" where
  "new_map h m =
     (Some (next_addr h),
      h\<lparr>string_maps := (string_maps h)(next_addr h := m), next_addr := Suc (next_addr h)\<rparr>)"

text \<open>\<open>HostVolumeCapability.Copy\<close>: nil for nil, otherwise a new object with the same value.\<close>

fun HostVolumeCapability_Copy :: "heap \<Rightarrow> ptr \<Rightarrow> ptr \<times> heap" where
  "HostVolumeCapability_Copy h None = (None, h)"
| "HostVolumeCapability_Copy h (Some hvc) =
     (let nhvc = capability_objs h hvc in new_capability h nhvc)"

text \<open>
  Modelled from the spec: \<open>Constraint.Copy\<close> and \<open>helper.CopySlice\<close> are not among the
  sources. The spec describes the copy helpers as total functions on a value that is
  present or absent, whose results are owned copies: \<open>Constraint.Copy\<close> is nil for nil
  and otherwise a new object with the same three fields; \<open>CopySlice\<close> is nil for a nil
  slice and otherwise a new array that holds, in order, the \<open>Copy\<close> of every element.
\<close>

fun Constraint_Copy :: "heap \<Rightarrow> ptr \<Rightarrow> ptr \<times> heap" where
  "Constraint_Copy h None = (None, h)"
| "Constraint_Copy h (Some c) =
     new_constraint h
       \<lparr>LTarget = LTarget (constraint_objs h c), RTarget = RTarget (constraint_objs h c),
        Operand = Operand (constraint_objs h c)\<rparr>"

fun CopySlice_elems ::
  "(heap \<Rightarrow> ptr \<Rightarrow> ptr \<times> heap) \<Rightarrow> heap \<Rightarrow> ptr list \<Rightarrow> ptr list \<times> heap" where
  "CopySlice_elems Copy_elem h [] = ([], h)"
| "CopySlice_elems Copy_elem h (v # vs) =
     (let (c, h) = Copy_elem h v;
          (cs, h) = CopySlice_elems Copy_elem h vs
      in (c # cs, h))"

fun CopySlice :: "(heap \<Rightarrow> ptr \<Rightarrow> ptr \<times> heap) \<Rightarrow> heap \<Rightarrow> ptr \<Rightarrow> ptr \<times> heap" where
  "CopySlice Copy_elem h None = (None, h)"
| "CopySlice Copy_elem h (Some s) =
     (let (c, h) = CopySlice_elems Copy_elem h (arrays h s) in new_array h c)"

text \<open>\<open>maps.Clone\<close> of the Go standard library: nil for nil, otherwise a new table with the
  same entries.\<close>

fun maps_Clone :: "heap \<Rightarrow> ptr \<Rightarrow> ptr \<times> heap" where
  "maps_Clone h None = (None, h)"
| "maps_Clone h (Some m) = new_map h (string_maps h m)"

text \<open>
  \<open>Copy\<close> takes the receiver as the struct it points to, or \<open>None\<close> for a nil receiver,
  and returns the new struct \<open>nhv\<close> (whose address is the result of the method) with the
  store after the allocations.
\<close>

fun Copy :: "heap \<Rightarrow> HostVolumeRef option \<Rightarrow> HostVolumeRef option \<times> heap" where
  "Copy h None = (None, h)"
| "Copy h (Some hv) =
     (let nhv = hv;
          (cs, h) = CopySlice Constraint_Copy h (Constraints hv);
          nhv = nhv\<lparr>Constraints := cs\<rparr>;
          (ks, h) = CopySlice HostVolumeCapability_Copy h (RequestedCapabilities hv);
          nhv = nhv\<lparr>RequestedCapabilities := ks\<rparr>;
          (ps, h) = maps_Clone h (Parameters hv);
          nhv = nhv\<lparr>Parameters := ps\<rparr>
      in (Some nhv, h))"

text \<open>The value a volume denotes in a store: every reference is followed.\<close>

definition view_slice :: "(addr \<Rightarrow> 'a) \<Rightarrow> heap \<Rightarrow> ptr \<Rightarrow> 'a option slice" where
  "view_slice objs h s = map_option (\<lambda>a. map (map_option objs) (arrays h a)) s"

definition view :: "heap \<Rightarrow> HostVolumeRef \<Rightarrow> HostVolume" where
  "view h hv =
     \<lparr>Namespace = Namespace hv, ID = ID hv, Name = Name hv, PluginID = PluginID hv,
      NodePool = NodePool hv, NodeID = NodeID hv,
      Constraints = view_slice (constraint_objs h) h (Constraints hv),
      RequestedCapacityMinBytes = RequestedCapacityMinBytes hv,
      RequestedCapacityMaxBytes = RequestedCapacityMaxBytes hv,
      CapacityBytes = CapacityBytes hv,
      RequestedCapabilities = view_slice (capability_objs h) h (RequestedCapabilities hv),
      Parameters = map_option (string_maps h) (Parameters hv),
      HostPath = HostPath hv, State = State hv, CreateIndex = CreateIndex hv,
      CreateTime = CreateTime hv, ModifyIndex = ModifyIndex hv, ModifyTime = ModifyTime hv,
      Allocations = view_slice (alloc_objs h) h (Allocations hv)\<rparr>"

text \<open>
  Writes through a reference: the cell at an address gets a new content. A write to an
  array cell covers the assignment \<open>s[i] = p\<close>, a write to an object an assignment to one
  of its fields, and a write to a table an insertion or a deletion.
\<close>

definition write_array :: "heap \<Rightarrow> addr \<Rightarrow> ptr list \<Rightarrow> heap" where
  "write_array h a xs = h\<lparr>arrays := (arrays h)(a := xs)\<rparr>"

definition write_constraint :: "heap \<Rightarrow> addr \<Rightarrow> Constraint \<Rightarrow> heap" where
  "write_constraint h a c = h\<lparr>constraint_objs := (constraint_objs h)(a := c)\<rparr>"

definition write_capability :: "heap \<Rightarrow> addr \<Rightarrow> HostVolumeCapability \<Rightarrow> heap" where
  "write_capability h a c = h\<lparr>capability_objs := (capability_objs h)(a := c)\<rparr>"

definition write_map :: "heap \<Rightarrow> addr \<Rightarrow> (string \<rightharpoonup> string) \<Rightarrow> heap" where
  "write_map h a m = h\<lparr>string_maps := (string_maps h)(a := m)\<rparr>"

text \<open>
  A volume is allocated in a store when every address it reaches (its arrays, their
  elements, its table) is in use, that is below \<open>next_addr\<close>.
\<close>

definition ptr_allocated :: "heap \<Rightarrow> ptr \<Rightarrow> bool" where
  "ptr_allocated h p = (case p of None \<Rightarrow> True | Some a \<Rightarrow> a < next_addr h)"

definition slice_allocated :: "heap \<Rightarrow> ptr \<Rightarrow> bool" where
  "slice_allocated h s =
     (case s of None \<Rightarrow> True
      | Some a \<Rightarrow> a < next_addr h \<and> list_all (ptr_allocated h) (arrays h a))"

definition volume_allocated :: "heap \<Rightarrow> HostVolumeRef \<Rightarrow> bool" where
  "volume_allocated h hv =
     (slice_allocated h (Constraints hv) \<and> slice_allocated h (RequestedCapabilities hv)
      \<and> ptr_allocated h (Parameters hv) \<and> slice_allocated h (Allocations hv))"

text \<open>The addresses a slice reaches: its array and the objects its elements point to.\<close>

definition slice_addrs :: "heap \<Rightarrow> ptr \<Rightarrow> addr list" where
  "slice_addrs h s =
     (case s of None \<Rightarrow> [] | Some a \<Rightarrow> a # List.map_filter id (arrays h a))"

section \<open>The heartbeat monitor\<close>

text \<open>
  Modelled from the spec: the functions of the heartbeat monitor (\<open>resetHeartbeatTimer\<close>,
  \<open>resetHeartbeatTimerLocked\<close> and the expiry of a timer) are not among the sources; only
  their tests are. The model follows the spec's description of \<open>renew\<close> and \<open>expire\<close>: on
  the leader, renewing resets the node's timer (creating it if there is none) to a random
  TTL in \<open>[MinTTL, 2 \<times> MinTTL]\<close> and returns that TTL; off the leader it returns an error;
  a timer that expires invalidates its node and is removed. The tests name the fields
  \<open>heartbeatTimers\<close> and \<open>config.MinHeartbeatTTL\<close>. Durations and times are integers
  (nanoseconds); the random choice is the set of the possible outcomes.
\<close>

datatype heartbeat_error = heartbeatNotLeader

record Server =
  IsLeader :: bool
  MinHeartbeatTTL :: int
  clock :: int  \<comment> \<open>the current time\<close>
  heartbeatTimers :: "string \<rightharpoonup> int"  \<comment> \<open>the time at which each node's timer fires\<close>
  invalidated :: "string \<Rightarrow> bool"  \<comment> \<open>the nodes marked down for a missed heartbeat\<close>

definition resetHeartbeatTimerLocked :: "Server \<Rightarrow> string \<Rightarrow> int \<Rightarrow> Server" where
  "resetHeartbeatTimerLocked s node ttl =
     s\<lparr>heartbeatTimers := (heartbeatTimers s)(node \<mapsto> clock s + ttl)\<rparr>"

definition resetHeartbeatTimer ::
  "Server \<Rightarrow> string \<Rightarrow> (heartbeat_error + int \<times> Server) set" where
  "resetHeartbeatTimer s node =
     (if \<not> IsLeader s then {Inl heartbeatNotLeader}
      else (\<lambda>ttl. Inr (ttl, resetHeartbeatTimerLocked s node ttl))
             ` {MinHeartbeatTTL s .. 2 * MinHeartbeatTTL s})"

text \<open>
  Time passes by \<open>d\<close>: every timer whose time has come by then has fired, which marks its
  node down and removes the timer.
\<close>

definition advance :: "Server \<Rightarrow> int \<Rightarrow> Server" where
  "advance s d =
     s\<lparr>clock := clock s + d,
       heartbeatTimers :=
         (\<lambda>node. case heartbeatTimers s node of
                  None \<Rightarrow> None
                | Some t \<Rightarrow> if t \<le> clock s + d then None else Some t),
       invalidated :=
         (\<lambda>node. invalidated s node
                \<or> (case heartbeatTimers s node of None \<Rightarrow> False | Some t \<Rightarrow> t \<le> clock s + d))\<rparr>"

section \<open>Auxiliary definitions for the proofs\<close>

text \<open>\<open>is_multi e\<close>: the error value \<open>e\<close> is a \<open>*multierror.Error\<close>.\<close>

fun is_multi :: "error \<Rightarrow> bool" where
  "is_multi (MultiError es) = True"
| "is_multi e = False"

text \<open>
  \<open>returns_error r e\<close>: the call returned (it did not panic), its result is a non-nil
  error, and \<open>e\<close> is that error or one of the errors collected in it.
\<close>

definition returns_error :: "error option result \<Rightarrow> error \<Rightarrow> bool" where
  "returns_error r e =
     (case r of Panic \<Rightarrow> False | Return None \<Rightarrow> False
      | Return (Some err) \<Rightarrow> e \<in> set (errors_of (Some err)))"





text \<open>The IDs of the allocations of a list without nil pointers, and the errors of
  \<open>ValidateUpdate\<close> in the order of the source.\<close>

fun alloc_IDs :: "AllocListStub option list \<Rightarrow> string list" where
  "alloc_IDs [] = []"
| "alloc_IDs (None # as) = alloc_IDs as"
| "alloc_IDs (Some a # as) = alloc_ID a # alloc_IDs as"

definition update_errors :: "HostVolume \<Rightarrow> HostVolume \<Rightarrow> error list" where
  "update_errors hv existing =
     (if len (Allocations existing) > 0
      then [ErrVolumeInUse (strings_Join (alloc_IDs (elems (Allocations existing))) '', '')]
      else [])
     @ (if NodeID hv \<noteq> [] \<and> NodeID hv \<noteq> NodeID existing then [ErrNodeIDUpdate] else [])
     @ (if NodePool hv \<noteq> [] \<and> NodePool hv \<noteq> NodePool existing
        then [ErrNodePoolUpdate] else [])
     @ (if sint (RequestedCapacityMaxBytes hv) < sint (CapacityBytes existing)
        then [ErrCapacityBelowProvisioned (RequestedCapacityMaxBytes hv) (CapacityBytes existing)]
        else [])"

text \<open>Go's zero value \<open>HostVolume{}\<close>, the base of the concrete volumes used below.\<close>

definition zero_volume :: HostVolume where
  "zero_volume =
     \<lparr>Namespace = '''', ID = '''', Name = '''', PluginID = '''', NodePool = '''', NodeID = '''',
      Constraints = None, RequestedCapacityMinBytes = 0, RequestedCapacityMaxBytes = 0,
      CapacityBytes = 0, RequestedCapabilities = None, Parameters = None, HostPath = '''',
      State = HostVolumeStateUnknown, CreateIndex = 0, CreateTime = 0, ModifyIndex = 0,
      ModifyTime = 0, Allocations = None\<rparr>"

subsection \<open>For \<open>Copy\<close>\<close>

text \<open>
  \<open>extends h h'\<close>: the store \<open>h'\<close> comes from \<open>h\<close> by allocations and by writes to
  addresses that are unused in \<open>h\<close>; every cell in use in \<open>h\<close> has kept its content.
\<close>

definition extends :: "heap \<Rightarrow> heap \<Rightarrow> bool" where
  "extends h h' \<longleftrightarrow>
     next_addr h \<le> next_addr h'
     \<and> (\<forall>a < next_addr h.
           constraint_objs h' a = constraint_objs h a
         \<and> capability_objs h' a = capability_objs h a
         \<and> alloc_objs h' a = alloc_objs h a
         \<and> arrays h' a = arrays h a
         \<and> string_maps h' a = string_maps h a)"

text \<open>A component of the store that \<open>extends\<close> preserves on the addresses in use.\<close>

definition stable :: "(heap \<Rightarrow> addr \<Rightarrow> 'a) \<Rightarrow> bool" where
  "stable objs \<longleftrightarrow> (\<forall>h h' a. extends h h' \<longrightarrow> a < next_addr h \<longrightarrow> objs h' a = objs h a)"

text \<open>
  \<open>copied objs h h' p q\<close>: \<open>q\<close> is nil when \<open>p\<close> is, and otherwise points to an object
  allocated between \<open>h\<close> and \<open>h'\<close> whose value in \<open>h'\<close> is the value of \<open>p\<close> in \<open>h\<close>;
  a \<open>copier\<close> is a \<open>Copy\<close> method with this effect.
\<close>

definition copied :: "(heap \<Rightarrow> addr \<Rightarrow> 'a) \<Rightarrow> heap \<Rightarrow> heap \<Rightarrow> ptr \<Rightarrow> ptr \<Rightarrow> bool" where
  "copied objs h h' p q =
     (case p of None \<Rightarrow> q = None
      | Some a \<Rightarrow> (\<exists>b. q = Some b \<and> next_addr h \<le> b \<and> b < next_addr h'
                        \<and> objs h' b = objs h a))"

definition copier :: "(heap \<Rightarrow> addr \<Rightarrow> 'a) \<Rightarrow> (heap \<Rightarrow> ptr \<Rightarrow> ptr \<times> heap) \<Rightarrow> bool" where
  "copier objs Cp \<longleftrightarrow>
     (\<forall>h p. extends h (snd (Cp h p)) \<and> copied objs h (snd (Cp h p)) p (fst (Cp h p)))"

text \<open>A concrete store and a volume in it, with one constraint, two capability pointers
  (one of them nil), one parameter and one allocation.\<close>

definition example_heap :: heap where
  "example_heap =
     \<lparr>constraint_objs =
        (\<lambda>a. \<lparr>LTarget = '''', RTarget = '''', Operand = ''''\<rparr>)
          (1 := \<lparr>LTarget = ''${attr.kernel.name}'', RTarget = ''linux'', Operand = ''=''\<rparr>),
      capability_objs =
        (\<lambda>a. \<lparr>AttachmentMode = '''', AccessMode = ''''\<rparr>)
          (3 := \<lparr>AttachmentMode = ''file-system'', AccessMode = ''single-node-writer''\<rparr>),
      alloc_objs = (\<lambda>a. \<lparr>alloc_ID = ''''\<rparr>)(6 := \<lparr>alloc_ID = ''a1''\<rparr>),
      arrays = (\<lambda>a. [])(0 := [Some 1], 2 := [Some 3, None], 5 := [Some 6]),
      string_maps = (\<lambda>a. Map.empty)(4 := [''path'' \<mapsto> ''/srv'']),
      next_addr = 7\<rparr>"

definition example_volume :: HostVolumeRef where
  "example_volume =
     \<lparr>Namespace = ''default'', ID = '''', Name = ''vol'', PluginID = '''', NodePool = '''',
      NodeID = '''', Constraints = Some 0, RequestedCapacityMinBytes = 0,
      RequestedCapacityMaxBytes = 0, CapacityBytes = 0, RequestedCapabilities = Some 2,
      Parameters = Some 4, HostPath = '''', State = ''ready'', CreateIndex = 0,
      CreateTime = 0, ModifyIndex = 0, ModifyTime = 0, Allocations = Some 5\<rparr>"

subsection \<open>For the heartbeat monitor\<close>

text \<open>A leader at time 100 with no timers and no node marked down.\<close>

definition example_server :: Server where
  "example_server =
     \<lparr>IsLeader = True, MinHeartbeatTTL = 10, clock = 100,
      heartbeatTimers = Map.empty, invalidated = (\<lambda>node. False)\<rparr>"

section \<open>Auxiliary lemmas\<close>

lemmas mode_defs =
  HostVolumeAttachmentModeBlockDevice_def HostVolumeAttachmentModeFilesystem_def
  HostVolumeAccessModeSingleNodeReader_def HostVolumeAccessModeSingleNodeWriter_def
  HostVolumeAccessModeMultiNodeReader_def HostVolumeAccessModeMultiNodeSingleWriter_def
  HostVolumeAccessModeMultiNodeMultiWriter_def

lemma Append_plain: "\<not> is_multi e \<Longrightarrow> multierror_Append m e = Some (elems m @ [e])"
  by (cases e) simp_all









lemma elems_if_Append:
  "\<not> is_multi e \<Longrightarrow> elems (if b then multierror_Append m e else m) = elems m @ (if b then [e] else [])"
  by (simp add: Append_plain)














lemma ConvertSlice_ID_Return:
  "None \<notin> set as \<Longrightarrow> ConvertSlice_ID as = Return (alloc_IDs as)"
  by (induction as rule: alloc_IDs.induct) simp_all

lemma ConvertSlice_ID_Panic:
  "None \<in> set as \<Longrightarrow> ConvertSlice_ID as = Panic"
  by (induction as rule: alloc_IDs.induct) auto

lemma ErrorOrNil_Some: "ErrorOrNil (Some es) = (if es = [] then None else Some (MultiError es))"
  by (cases es) simp_all

lemma ValidateUpdate_Return:
  assumes "None \<notin> set (elems (Allocations existing))"
  shows "ValidateUpdate hv (Some existing) =
           Return (if update_errors hv existing = [] then None
                   else Some (MultiError (update_errors hv existing)))"
proof (cases "len (Allocations existing) > 0")
  case True
  then show ?thesis
    using ConvertSlice_ID_Return [OF assms]
    by (simp add: update_errors_def Let_def ErrorOrNil_Some)
next
  case False
  then show ?thesis
    by (simp add: update_errors_def Let_def ErrorOrNil_Some)
qed

lemma ValidateUpdate_Panic:
  assumes "None \<in> set (elems (Allocations existing))"
  shows "ValidateUpdate hv (Some existing) = Panic"
proof -
  from assms have "len (Allocations existing) > 0"
    by (cases "Allocations existing") auto
  then show ?thesis using ConvertSlice_ID_Panic [OF assms] by simp
qed

lemma ValidateUpdate_not_nil:
  assumes "update_errors hv existing \<noteq> []"
  shows "ValidateUpdate hv (Some existing) \<noteq> Return None"
proof (cases "None \<in> set (elems (Allocations existing))")
  case True
  then have "ValidateUpdate hv (Some existing) = Panic" by (rule ValidateUpdate_Panic)
  then show ?thesis by (simp del: ValidateUpdate.simps)
next
  case False
  then show ?thesis using assms
    by (simp add: ValidateUpdate_Return del: ValidateUpdate.simps)
qed

lemma ValidateUpdate_returns_error:
  assumes "None \<notin> set (elems (Allocations existing))"
  shows "returns_error (ValidateUpdate hv (Some existing)) e
           \<longleftrightarrow> e \<in> set (update_errors hv existing)"
  by (simp add: ValidateUpdate_Return [OF assms] returns_error_def del: ValidateUpdate.simps)

section \<open>Auxiliary lemmas about the store\<close>

lemma extends_refl: "extends h h"
  by (simp add: extends_def)

lemma extends_trans: "extends h1 h2 \<Longrightarrow> extends h2 h3 \<Longrightarrow> extends h1 h3"
  by (auto simp: extends_def)

lemma extends_next: "extends h h' \<Longrightarrow> next_addr h \<le> next_addr h'"
  by (simp add: extends_def)

lemma stable_constraint_objs: "stable constraint_objs"
  and stable_capability_objs: "stable capability_objs"
  and stable_alloc_objs: "stable alloc_objs"
  by (simp_all add: stable_def extends_def)

lemma extends_arrays: "extends h h' \<Longrightarrow> a < next_addr h \<Longrightarrow> arrays h' a = arrays h a"
  by (simp add: extends_def)

lemma extends_string_maps:
  "extends h h' \<Longrightarrow> a < next_addr h \<Longrightarrow> string_maps h' a = string_maps h a"
  by (simp add: extends_def)

lemma copier_Constraint_Copy: "copier constraint_objs Constraint_Copy"
  unfolding copier_def
proof (intro allI)
  fix h p
  show "extends h (snd (Constraint_Copy h p))
        \<and> copied constraint_objs h (snd (Constraint_Copy h p)) p (fst (Constraint_Copy h p))"
    by (cases p) (simp_all add: extends_def copied_def new_constraint_def)
qed

lemma copier_HostVolumeCapability_Copy: "copier capability_objs HostVolumeCapability_Copy"
  unfolding copier_def
proof (intro allI)
  fix h p
  show "extends h (snd (HostVolumeCapability_Copy h p))
        \<and> copied capability_objs h (snd (HostVolumeCapability_Copy h p)) p
             (fst (HostVolumeCapability_Copy h p))"
    by (cases p) (simp_all add: extends_def copied_def new_capability_def)
qed

lemma copied_mono:
  assumes "copied objs h1 h2 p q" "extends h0 h1" "extends h2 h3" "stable objs"
    "ptr_allocated h0 p"
  shows "copied objs h0 h3 p q"
proof (cases p)
  case None
  then show ?thesis using assms(1) by (simp add: copied_def)
next
  case (Some a)
  with assms(1) obtain b where b: "q = Some b" "next_addr h1 \<le> b" "b < next_addr h2"
    "objs h2 b = objs h1 a"
    by (auto simp: copied_def)
  from Some assms(5) have a: "a < next_addr h0" by (simp add: ptr_allocated_def)
  have "objs h3 b = objs h2 b"
    using assms(3,4) b(3) by (simp add: stable_def)
  moreover have "objs h1 a = objs h0 a"
    using assms(2,4) a by (simp add: stable_def)
  moreover have "next_addr h0 \<le> b" "b < next_addr h3"
    using b(2,3) extends_next [OF assms(2)] extends_next [OF assms(3)] by simp_all
  ultimately show ?thesis using Some b by (simp add: copied_def)
qed

lemma ptr_allocated_extends: "ptr_allocated h p \<Longrightarrow> extends h h' \<Longrightarrow> ptr_allocated h' p"
  by (cases p) (auto simp: ptr_allocated_def dest: extends_next)

lemma CopySlice_elems_copied:
  assumes "copier objs Cp" "stable objs"
  shows "list_all (ptr_allocated h) ps \<Longrightarrow> CopySlice_elems Cp h ps = (qs, h') \<Longrightarrow>
         extends h h' \<and> list_all2 (copied objs h h') ps qs"
proof (induction ps arbitrary: h qs h')
  case Nil
  then show ?case by (simp add: extends_refl)
next
  case (Cons p ps)
  obtain q h1 where c1: "Cp h p = (q, h1)" by (cases "Cp h p")
  obtain qs' h2 where c2: "CopySlice_elems Cp h1 ps = (qs', h2)"
    by (cases "CopySlice_elems Cp h1 ps")
  from Cons.prems(2) c1 c2 have r: "qs = q # qs'" "h' = h2" by simp_all
  from assms(1) c1 have e1: "extends h h1" and k1: "copied objs h h1 p q"
    unfolding copier_def by (metis fst_conv snd_conv)+
  from Cons.prems(1) have pa: "ptr_allocated h p" and psa: "list_all (ptr_allocated h) ps"
    by simp_all
  from psa e1 have "list_all (ptr_allocated h1) ps"
    by (auto simp: list_all_iff intro: ptr_allocated_extends)
  from Cons.IH [OF this c2] have e2: "extends h1 h2"
    and k2: "list_all2 (copied objs h1 h2) ps qs'" by simp_all
  have "copied objs h h2 p q"
    using copied_mono [OF k1 extends_refl e2 assms(2) pa] .
  moreover have "list_all2 (copied objs h h2) ps qs'"
    unfolding list_all2_conv_all_nth
  proof (intro conjI allI impI)
    show "length ps = length qs'" using k2 by (simp add: list_all2_lengthD)
    fix i assume i: "i < length ps"
    then have "copied objs h1 h2 (ps ! i) (qs' ! i)"
      using k2 by (simp add: list_all2_conv_all_nth)
    moreover have "ptr_allocated h (ps ! i)"
      using psa i by (simp add: list_all_length)
    ultimately show "copied objs h h2 (ps ! i) (qs' ! i)"
      using copied_mono [OF _ e1 extends_refl assms(2)] by blast
  qed
  ultimately show ?case using r extends_trans [OF e1 e2] by simp
qed

lemma copied_view:
  assumes "list_all2 (copied objs h h1) ps qs" "extends h1 h'" "stable objs"
  shows "map (map_option (objs h')) qs = map (map_option (objs h)) ps"
  using assms(1)
proof (induction rule: list_all2_induct)
  case Nil
  then show ?case by simp
next
  case (Cons p ps q qs)
  have "map_option (objs h') q = map_option (objs h) p"
  proof (cases p)
    case None
    then show ?thesis using Cons.hyps(1) by (simp add: copied_def)
  next
    case (Some a)
    with Cons.hyps(1) obtain b where "q = Some b" "b < next_addr h1" "objs h1 b = objs h a"
      by (auto simp: copied_def)
    moreover from this assms(2,3) have "objs h' b = objs h1 b" by (simp add: stable_def)
    ultimately show ?thesis using Some by simp
  qed
  then show ?case using Cons.IH by simp
qed

lemma copied_addrs:
  assumes "list_all2 (copied objs h h1) ps qs" "b \<in> set (List.map_filter id qs)"
  shows "next_addr h \<le> b \<and> b < next_addr h1"
  using assms
proof (induction rule: list_all2_induct)
  case Nil
  then show ?case by (simp add: map_filter_simps)
next
  case (Cons p ps q qs)
  show ?case
  proof (cases q)
    case None
    then show ?thesis using Cons by (simp add: map_filter_simps)
  next
    case (Some c)
    with Cons.hyps(1) have "next_addr h \<le> c \<and> c < next_addr h1"
      by (cases p) (auto simp: copied_def)
    then show ?thesis using Cons Some by (auto simp: map_filter_simps)
  qed
qed

lemma CopySlice_fresh:
  assumes "copier objs Cp" "stable objs" "slice_allocated h s" "CopySlice Cp h s = (t, h')"
  shows "extends h h'
     \<and> view_slice (objs h') h' t = view_slice (objs h) h s
     \<and> (\<forall>a \<in> set (slice_addrs h' t). next_addr h \<le> a \<and> a < next_addr h')"
proof (cases s)
  case None
  then show ?thesis using assms(4)
    by (auto simp: extends_refl view_slice_def slice_addrs_def)
next
  case (Some a)
  with assms(3) have a: "a < next_addr h" and al: "list_all (ptr_allocated h) (arrays h a)"
    by (simp_all add: slice_allocated_def)
  obtain qs h1 where c: "CopySlice_elems Cp h (arrays h a) = (qs, h1)"
    by (cases "CopySlice_elems Cp h (arrays h a)")
  from assms(4) Some c have t: "t = Some (next_addr h1)"
    and h': "h' = h1\<lparr>arrays := (arrays h1)(next_addr h1 := qs), next_addr := Suc (next_addr h1)\<rparr>"
    by (simp_all add: new_array_def)
  from CopySlice_elems_copied [OF assms(1,2) al c]
  have e1: "extends h h1" and k: "list_all2 (copied objs h h1) (arrays h a) qs" by simp_all
  have e2: "extends h1 h'" by (simp add: h' extends_def)
  have e: "extends h h'" by (rule extends_trans [OF e1 e2])
  have "arrays h' (next_addr h1) = qs" by (simp add: h')
  then have v: "view_slice (objs h') h' t = view_slice (objs h) h s"
    using copied_view [OF k e2 assms(2)] by (simp add: view_slice_def t Some)
  have n: "next_addr h \<le> next_addr h1" "next_addr h1 < next_addr h'"
    using extends_next [OF e1] by (simp_all add: h')
  have "next_addr h \<le> b \<and> b < next_addr h'" if "b \<in> set (slice_addrs h' t)" for b
  proof -
    from that have "b = next_addr h1 \<or> b \<in> set (List.map_filter id qs)"
      by (simp add: slice_addrs_def t h')
    then show ?thesis using copied_addrs [OF k] n by fastforce
  qed
  with e v show ?thesis by blast
qed

lemma slice_allocated_addrs:
  "slice_allocated h s \<longleftrightarrow> (\<forall>a \<in> set (slice_addrs h s). a < next_addr h)"
proof (cases s)
  case None
  then show ?thesis by (simp add: slice_allocated_def slice_addrs_def)
next
  case (Some a)
  have "list_all (ptr_allocated h) xs \<longleftrightarrow> (\<forall>b \<in> set (List.map_filter id xs). b < next_addr h)"
    for xs
    by (induction xs) (auto simp: map_filter_simps ptr_allocated_def split: option.splits)
  then show ?thesis using Some by (simp add: slice_allocated_def slice_addrs_def)
qed

lemma view_slice_extends:
  assumes "stable objs" "extends h h'" "slice_allocated h s"
  shows "view_slice (objs h') h' s = view_slice (objs h) h s"
proof (cases s)
  case None
  then show ?thesis by (simp add: view_slice_def)
next
  case (Some a)
  with assms(3) have a: "a < next_addr h" and al: "list_all (ptr_allocated h) (arrays h a)"
    by (simp_all add: slice_allocated_def)
  have "map_option (objs h') p = map_option (objs h) p" if "p \<in> set (arrays h a)" for p
  proof (cases p)
    case None
    then show ?thesis by simp
  next
    case (Some b)
    with that al have "b < next_addr h" by (auto simp: list_all_iff ptr_allocated_def)
    then show ?thesis using assms(1,2) Some by (simp add: stable_def)
  qed
  then show ?thesis using Some extends_arrays [OF assms(2) a]
    by (simp add: view_slice_def)
qed

lemma view_extends:
  assumes "volume_allocated h hv" "extends h h'"
  shows "view h' hv = view h hv"
proof -
  have "map_option (string_maps h') (Parameters hv) = map_option (string_maps h) (Parameters hv)"
    using assms by (cases "Parameters hv")
      (simp_all add: volume_allocated_def ptr_allocated_def extends_string_maps)
  then show ?thesis using assms
    by (simp add: view_def volume_allocated_def
        view_slice_extends [OF stable_constraint_objs]
        view_slice_extends [OF stable_capability_objs]
        view_slice_extends [OF stable_alloc_objs])
qed

lemma extends_write:
  assumes "extends h h'" "next_addr h \<le> a"
  shows "extends h (write_array h' a xs)" "extends h (write_constraint h' a c)"
    "extends h (write_capability h' a k)" "extends h (write_map h' a m)"
  using assms
  by (auto simp: extends_def write_array_def write_constraint_def write_capability_def
      write_map_def)

lemma slice_allocated_extends:
  assumes "slice_allocated h s" "extends h h'"
  shows "slice_allocated h' s"
proof (cases s)
  case None
  then show ?thesis by (simp add: slice_allocated_def)
next
  case (Some a)
  with assms(1) have a: "a < next_addr h" and al: "list_all (ptr_allocated h) (arrays h a)"
    by (simp_all add: slice_allocated_def)
  from al have "list_all (ptr_allocated h') (arrays h a)"
    using assms(2) by (auto simp: list_all_iff intro: ptr_allocated_extends)
  then show ?thesis
    using Some a extends_arrays [OF assms(2) a] extends_next [OF assms(2)]
    by (simp add: slice_allocated_def)
qed

lemma slice_addrs_extends:
  assumes "slice_allocated h s" "extends h h'"
  shows "slice_addrs h' s = slice_addrs h s"
proof (cases s)
  case None
  then show ?thesis by (simp add: slice_addrs_def)
next
  case (Some a)
  with assms(1) have "a < next_addr h" by (simp add: slice_allocated_def)
  then show ?thesis using Some extends_arrays [OF assms(2)] by (simp add: slice_addrs_def)
qed

lemma maps_Clone_fresh:
  assumes "ptr_allocated h p" "maps_Clone h p = (q, h')"
  shows "extends h h'
     \<and> map_option (string_maps h') q = map_option (string_maps h) p
     \<and> (\<forall>a \<in> set_option q. next_addr h \<le> a \<and> a < next_addr h')"
  using assms
  by (cases p) (auto simp: extends_def new_map_def ptr_allocated_def)

lemma Copy_Some:
  assumes al: "volume_allocated h hv"
  shows "\<exists>nhv h'. Copy h (Some hv) = (Some nhv, h')
          \<and> extends h h'
          \<and> view h' nhv = view h hv
          \<and> Allocations nhv = Allocations hv
          \<and> (\<forall>a \<in> set (slice_addrs h' (Constraints nhv))
                   \<union> set (slice_addrs h' (RequestedCapabilities nhv))
                   \<union> set_option (Parameters nhv). next_addr h \<le> a)"
proof -
  obtain cs h1 where c1: "CopySlice Constraint_Copy h (Constraints hv) = (cs, h1)"
    by (cases "CopySlice Constraint_Copy h (Constraints hv)")
  obtain ks h2 where c2:
    "CopySlice HostVolumeCapability_Copy h1 (RequestedCapabilities hv) = (ks, h2)"
    by (cases "CopySlice HostVolumeCapability_Copy h1 (RequestedCapabilities hv)")
  obtain ps h3 where c3: "maps_Clone h2 (Parameters hv) = (ps, h3)"
    by (cases "maps_Clone h2 (Parameters hv)")
  define nhv where
    "nhv = hv\<lparr>Constraints := cs, RequestedCapabilities := ks, Parameters := ps\<rparr>"
  have C: "Copy h (Some hv) = (Some nhv, h3)"
    by (simp add: c1 c2 c3 nhv_def Let_def)
  from al have a1: "slice_allocated h (Constraints hv)"
    and a2: "slice_allocated h (RequestedCapabilities hv)"
    and a3: "ptr_allocated h (Parameters hv)"
    and a4: "slice_allocated h (Allocations hv)"
    by (simp_all add: volume_allocated_def)
  from CopySlice_fresh [OF copier_Constraint_Copy stable_constraint_objs a1 c1]
  have e1: "extends h h1"
    and v1: "view_slice (constraint_objs h1) h1 cs
               = view_slice (constraint_objs h) h (Constraints hv)"
    and f1: "\<forall>a \<in> set (slice_addrs h1 cs). next_addr h \<le> a \<and> a < next_addr h1"
    by simp_all
  from CopySlice_fresh [OF copier_HostVolumeCapability_Copy stable_capability_objs
      slice_allocated_extends [OF a2 e1] c2]
  have e2: "extends h1 h2"
    and v2: "view_slice (capability_objs h2) h2 ks
               = view_slice (capability_objs h1) h1 (RequestedCapabilities hv)"
    and f2: "\<forall>a \<in> set (slice_addrs h2 ks). next_addr h1 \<le> a \<and> a < next_addr h2"
    by simp_all
  have e12: "extends h h2" by (rule extends_trans [OF e1 e2])
  from maps_Clone_fresh [OF ptr_allocated_extends [OF a3 e12] c3]
  have e3: "extends h2 h3"
    and v3: "map_option (string_maps h3) ps = map_option (string_maps h2) (Parameters hv)"
    and f3: "\<forall>a \<in> set_option ps. next_addr h2 \<le> a \<and> a < next_addr h3"
    by simp_all
  have e13: "extends h1 h3" by (rule extends_trans [OF e2 e3])
  have e: "extends h h3" by (rule extends_trans [OF e12 e3])
  have s1: "slice_allocated h1 cs" using f1 by (simp add: slice_allocated_addrs)
  have s2: "slice_allocated h2 ks" using f2 by (simp add: slice_allocated_addrs)
  have w1: "view_slice (constraint_objs h3) h3 cs
              = view_slice (constraint_objs h) h (Constraints hv)"
    using view_slice_extends [OF stable_constraint_objs e13 s1] v1 by simp
  have w2: "view_slice (capability_objs h3) h3 ks
              = view_slice (capability_objs h) h (RequestedCapabilities hv)"
    using view_slice_extends [OF stable_capability_objs e3 s2] v2
      view_slice_extends [OF stable_capability_objs e1 a2] by simp
  have w3: "map_option (string_maps h3) ps = map_option (string_maps h) (Parameters hv)"
  proof (cases "Parameters hv")
    case None
    then show ?thesis using v3 by simp
  next
    case (Some m)
    with a3 have "m < next_addr h" by (simp add: ptr_allocated_def)
    then show ?thesis using v3 Some extends_string_maps [OF e12] by simp
  qed
  have w4: "view_slice (alloc_objs h3) h3 (Allocations hv)
              = view_slice (alloc_objs h) h (Allocations hv)"
    by (rule view_slice_extends [OF stable_alloc_objs e a4])
  have V: "view h3 nhv = view h hv"
    by (simp add: view_def nhv_def w1 w2 w3 w4)
  have n: "next_addr h \<le> next_addr h1" "next_addr h \<le> next_addr h2"
    using extends_next [OF e1] extends_next [OF e12] by simp_all
  have F: "next_addr h \<le> a"
    if "a \<in> set (slice_addrs h3 (Constraints nhv))
            \<union> set (slice_addrs h3 (RequestedCapabilities nhv))
            \<union> set_option (Parameters nhv)" for a
  proof -
    have "slice_addrs h3 cs = slice_addrs h1 cs" by (rule slice_addrs_extends [OF s1 e13])
    moreover have "slice_addrs h3 ks = slice_addrs h2 ks" by (rule slice_addrs_extends [OF s2 e3])
    ultimately have "a \<in> set (slice_addrs h1 cs) \<or> a \<in> set (slice_addrs h2 ks)
        \<or> a \<in> set_option ps"
      using that by (auto simp: nhv_def)
    then show ?thesis using f1 f2 f3 n by fastforce
  qed
  have "Allocations nhv = Allocations hv" by (simp add: nhv_def)
  with C e V F show ?thesis by blast
qed

section \<open>The claims about validation and canonicalisation\<close>

text \<open>
  Claim C4. \<open>HostVolumeCapability.Validate\<close> returns an error for a nil capability. For
  a non-nil capability it returns nil exactly when the attachment mode is \<open>block-device\<close>
  or \<open>file-system\<close> and the access mode is one of the five defined access modes; an
  empty attachment mode gives the invalid-attachment-mode error, and an empty access mode
  gives an error whatever the attachment mode is.
\<close>

theorem HostVolumeCapability_Validate_iff:
  "HostVolumeCapability_Validate None \<noteq> None
   \<and> (HostVolumeCapability_Validate (Some c) = None \<longleftrightarrow>
        (AttachmentMode c = HostVolumeAttachmentModeBlockDevice
          \<or> AttachmentMode c = HostVolumeAttachmentModeFilesystem)
        \<and> (AccessMode c = HostVolumeAccessModeSingleNodeReader
          \<or> AccessMode c = HostVolumeAccessModeSingleNodeWriter
          \<or> AccessMode c = HostVolumeAccessModeMultiNodeReader
          \<or> AccessMode c = HostVolumeAccessModeMultiNodeSingleWriter
          \<or> AccessMode c = HostVolumeAccessModeMultiNodeMultiWriter))
   \<and> HostVolumeCapability_Validate (Some (c\<lparr>AttachmentMode := HostVolumeAttachmentModeUnknown\<rparr>))
        = Some (ErrInvalidAttachmentMode HostVolumeAttachmentModeUnknown)
   \<and> HostVolumeCapability_Validate (Some (c\<lparr>AccessMode := HostVolumeAccessModeUnknown\<rparr>))
        \<noteq> None"
  by (simp add: mode_defs HostVolumeAttachmentModeUnknown_def HostVolumeAccessModeUnknown_def)

text \<open>The theorem at concrete volumes.\<close>

theorem HostVolumeCapability_Validate_iff_witness:
  "HostVolumeCapability_Validate
     (Some \<lparr>AttachmentMode = ''block-device'', AccessMode = ''multi-node-multi-writer''\<rparr>) = None
   \<and> HostVolumeCapability_Validate
     (Some \<lparr>AttachmentMode = ''block-device'', AccessMode = ''''\<rparr>) \<noteq> None"
  using HostVolumeCapability_Validate_iff [where c = "\<lparr>AttachmentMode = ''block-device'', AccessMode = ''multi-node-multi-writer''\<rparr>"]
  by (simp add: mode_defs HostVolumeAccessModeUnknown_def)











text \<open>
  Claim C1. For an update \<open>hv\<close> of an existing volume \<open>e\<close>: when \<open>e.Allocations\<close> has at
  least one entry, \<open>ValidateUpdate\<close> never returns nil, and (the entries being non-nil
  pointers) it returns an error that reports the volume as in use, with the allocation IDs;
  independently, when \<open>hv.NodeID\<close> is non-empty and differs from \<open>e.NodeID\<close>, it reports
  that the node ID cannot be updated, and when \<open>hv.NodePool\<close> is non-empty and differs
  from \<open>e.NodePool\<close>, it reports that the node pool cannot be updated.
\<close>

theorem ValidateUpdate_rejects_claimed_or_moved:
  "(len (Allocations e) > 0 \<longrightarrow>
      ValidateUpdate hv (Some e) \<noteq> Return None
      \<and> (None \<notin> set (elems (Allocations e)) \<longrightarrow>
           returns_error (ValidateUpdate hv (Some e))
             (ErrVolumeInUse (strings_Join (alloc_IDs (elems (Allocations e))) '', ''))))
   \<and> (NodeID hv \<noteq> '''' \<and> NodeID hv \<noteq> NodeID e \<longrightarrow>
      ValidateUpdate hv (Some e) \<noteq> Return None
      \<and> (None \<notin> set (elems (Allocations e)) \<longrightarrow>
           returns_error (ValidateUpdate hv (Some e)) ErrNodeIDUpdate))
   \<and> (NodePool hv \<noteq> '''' \<and> NodePool hv \<noteq> NodePool e \<longrightarrow>
      ValidateUpdate hv (Some e) \<noteq> Return None
      \<and> (None \<notin> set (elems (Allocations e)) \<longrightarrow>
           returns_error (ValidateUpdate hv (Some e)) ErrNodePoolUpdate))"
proof -
  have r: "x \<in> set (update_errors hv e) \<Longrightarrow>
      ValidateUpdate hv (Some e) \<noteq> Return None
      \<and> (None \<notin> set (elems (Allocations e)) \<longrightarrow> returns_error (ValidateUpdate hv (Some e)) x)" for x
  proof -
    assume x: "x \<in> set (update_errors hv e)"
    then have "update_errors hv e \<noteq> []" by auto
    then have "ValidateUpdate hv (Some e) \<noteq> Return None" by (rule ValidateUpdate_not_nil)
    then show ?thesis using x
      by (simp add: ValidateUpdate_returns_error del: ValidateUpdate.simps)
  qed
  show ?thesis
    by (intro conjI impI r) (simp_all add: update_errors_def)
qed

text \<open>The theorem at concrete volumes.\<close>

theorem ValidateUpdate_rejects_claimed_or_moved_witness:
  "returns_error
     (ValidateUpdate (zero_volume\<lparr>NodeID := ''n2'', NodePool := ''gpu''\<rparr>)
        (Some (zero_volume\<lparr>NodeID := ''n1'', NodePool := ''default'',
                 Allocations := Some [Some \<lparr>alloc_ID = ''a1''\<rparr>, Some \<lparr>alloc_ID = ''a2''\<rparr>]\<rparr>)))
     (ErrVolumeInUse ''a1, a2'')
   \<and> returns_error
     (ValidateUpdate (zero_volume\<lparr>NodeID := ''n2'', NodePool := ''gpu''\<rparr>)
        (Some (zero_volume\<lparr>NodeID := ''n1'', NodePool := ''default'',
                 Allocations := Some [Some \<lparr>alloc_ID = ''a1''\<rparr>, Some \<lparr>alloc_ID = ''a2''\<rparr>]\<rparr>)))
     ErrNodeIDUpdate
   \<and> returns_error
     (ValidateUpdate (zero_volume\<lparr>NodeID := ''n2'', NodePool := ''gpu''\<rparr>)
        (Some (zero_volume\<lparr>NodeID := ''n1'', NodePool := ''default'',
                 Allocations := Some [Some \<lparr>alloc_ID = ''a1''\<rparr>, Some \<lparr>alloc_ID = ''a2''\<rparr>]\<rparr>)))
     ErrNodePoolUpdate"
  using ValidateUpdate_rejects_claimed_or_moved [where e = "zero_volume\<lparr>NodeID := ''n1'', NodePool := ''default'',
                 Allocations := Some [Some \<lparr>alloc_ID = ''a1''\<rparr>, Some \<lparr>alloc_ID = ''a2''\<rparr>]\<rparr>"
              and hv = "zero_volume\<lparr>NodeID := ''n2'', NodePool := ''gpu''\<rparr>"]
  by (simp add: zero_volume_def del: ValidateUpdate.simps)


text \<open>
  Claim C10. For an update \<open>hv\<close> of an existing volume \<open>e\<close> with
  \<open>hv.RequestedCapacityMaxBytes < e.CapacityBytes\<close>, \<open>ValidateUpdate\<close> never returns nil,
  and (the entries of \<open>e.Allocations\<close> being non-nil pointers) it returns an error that
  reports the capacity below the provisioned one; when \<open>e\<close> has no allocations and the
  node ID and node pool are unchanged, this is the only error.
\<close>

theorem ValidateUpdate_capacity_below_provisioned:
  assumes "sint (RequestedCapacityMaxBytes hv) < sint (CapacityBytes e)"
  shows "ValidateUpdate hv (Some e) \<noteq> Return None
     \<and> (None \<notin> set (elems (Allocations e)) \<longrightarrow>
          returns_error (ValidateUpdate hv (Some e))
            (ErrCapacityBelowProvisioned (RequestedCapacityMaxBytes hv) (CapacityBytes e)))
     \<and> (len (Allocations e) = 0 \<and> NodeID hv = NodeID e \<and> NodePool hv = NodePool e \<longrightarrow>
          ValidateUpdate hv (Some e) =
            Return (Some (MultiError
              [ErrCapacityBelowProvisioned (RequestedCapacityMaxBytes hv) (CapacityBytes e)])))"
proof -
  have m: "ErrCapacityBelowProvisioned (RequestedCapacityMaxBytes hv) (CapacityBytes e)
             \<in> set (update_errors hv e)"
    using assms by (simp add: update_errors_def)
  then have "update_errors hv e \<noteq> []" by auto
  then have "ValidateUpdate hv (Some e) \<noteq> Return None" by (rule ValidateUpdate_not_nil)
  moreover have "ValidateUpdate hv (Some e) =
            Return (Some (MultiError
              [ErrCapacityBelowProvisioned (RequestedCapacityMaxBytes hv) (CapacityBytes e)]))"
    if "len (Allocations e) = 0" "NodeID hv = NodeID e" "NodePool hv = NodePool e"
    using that assms by simp
  ultimately show ?thesis using m
    by (simp add: ValidateUpdate_returns_error del: ValidateUpdate.simps)
qed

text \<open>The theorem at concrete volumes.\<close>

theorem ValidateUpdate_capacity_below_provisioned_witness:
  "ValidateUpdate (zero_volume\<lparr>RequestedCapacityMaxBytes := 5\<rparr>)
     (Some (zero_volume\<lparr>CapacityBytes := 10\<rparr>))
   = Return (Some (MultiError [ErrCapacityBelowProvisioned 5 10]))"
  using ValidateUpdate_capacity_below_provisioned
      [where hv = "zero_volume\<lparr>RequestedCapacityMaxBytes := 5\<rparr>"
       and e = "zero_volume\<lparr>CapacityBytes := 10\<rparr>"]
  by (simp add: zero_volume_def del: ValidateUpdate.simps)


text \<open>
  Claim C7. \<open>CanonicalizeForUpdate\<close> without an existing volume sets \<open>ID\<close> to the generated
  UUID, defaults \<open>PluginID\<close> to \<open>default\<close> when it is empty, zeroes \<open>CapacityBytes\<close> and
  \<open>HostPath\<close>, and sets \<open>CreateTime\<close> to \<open>now\<close>; with an existing volume it takes
  \<open>PluginID\<close>, \<open>NodePool\<close>, \<open>NodeID\<close>, \<open>Constraints\<close>, \<open>CapacityBytes\<close>, \<open>HostPath\<close> and
  \<open>CreateTime\<close> from it. In both cases \<open>State\<close> is \<open>pending\<close>, \<open>ModifyTime\<close> is \<open>now\<close>
  and \<open>Allocations\<close> is nil.
\<close>

theorem CanonicalizeForUpdate_fields:
  "(let r = CanonicalizeForUpdate uuid now hv None in
      ID r = uuid
      \<and> PluginID r = (if PluginID hv = '''' then DefaultHostVolumePlugin else PluginID hv)
      \<and> CapacityBytes r = 0 \<and> HostPath r = '''' \<and> CreateTime r = now
      \<and> State r = HostVolumeStatePending \<and> ModifyTime r = now \<and> Allocations r = None)
   \<and> (let r = CanonicalizeForUpdate uuid now hv (Some existing) in
      PluginID r = PluginID existing \<and> NodePool r = NodePool existing
      \<and> NodeID r = NodeID existing \<and> Constraints r = Constraints existing
      \<and> CapacityBytes r = CapacityBytes existing \<and> HostPath r = HostPath existing
      \<and> CreateTime r = CreateTime existing
      \<and> State r = HostVolumeStatePending \<and> ModifyTime r = now \<and> Allocations r = None)"
  by (simp add: Let_def)

text \<open>The theorem at concrete volumes.\<close>

theorem CanonicalizeForUpdate_fields_witness:
  "ID (CanonicalizeForUpdate ''8c2eb0a4-5c3e-4e0f-9a52-1f0c0e7d9b11'' 1700000000000000000
         (zero_volume\<lparr>Name := ''vol'', CapacityBytes := 7, HostPath := ''/tmp/x''\<rparr>) None)
     = ''8c2eb0a4-5c3e-4e0f-9a52-1f0c0e7d9b11''
   \<and> PluginID (CanonicalizeForUpdate ''8c2eb0a4-5c3e-4e0f-9a52-1f0c0e7d9b11'' 1700000000000000000
         (zero_volume\<lparr>Name := ''vol'', CapacityBytes := 7, HostPath := ''/tmp/x''\<rparr>) None)
     = ''default''
   \<and> NodeID (CanonicalizeForUpdate ''8c2eb0a4-5c3e-4e0f-9a52-1f0c0e7d9b11'' 1700000000000000000
         (zero_volume\<lparr>Name := ''vol'', CapacityBytes := 7, HostPath := ''/tmp/x''\<rparr>)
         (Some (zero_volume\<lparr>NodeID := ''n1'', State := ''ready''\<rparr>)))
     = ''n1''
   \<and> State (CanonicalizeForUpdate ''8c2eb0a4-5c3e-4e0f-9a52-1f0c0e7d9b11'' 1700000000000000000
         (zero_volume\<lparr>Name := ''vol'', CapacityBytes := 7, HostPath := ''/tmp/x''\<rparr>)
         (Some (zero_volume\<lparr>NodeID := ''n1'', State := ''ready''\<rparr>)))
     = ''pending''"
  using CanonicalizeForUpdate_fields [where uuid = "''8c2eb0a4-5c3e-4e0f-9a52-1f0c0e7d9b11''"
         and now = 1700000000000000000
         and hv = "zero_volume\<lparr>Name := ''vol'', CapacityBytes := 7, HostPath := ''/tmp/x''\<rparr>"
         and existing = "zero_volume\<lparr>NodeID := ''n1'', State := ''ready''\<rparr>"]
  by (simp add: zero_volume_def Let_def DefaultHostVolumePlugin_def HostVolumeStatePending_def
           del: CanonicalizeForUpdate.simps)







section \<open>The claim about \<open>Copy\<close>\<close>

text \<open>
  Claim C9. \<open>Copy\<close> of a nil receiver is nil and leaves the store as it is. For a volume
  \<open>hv\<close> allocated in the store, \<open>Copy\<close> returns a volume \<open>nhv\<close> that denotes the same
  value as \<open>hv\<close>, field for field, and \<open>hv\<close> still denotes the value it had. The array and
  the elements of \<open>nhv.Constraints\<close> and of \<open>nhv.RequestedCapabilities\<close> and the table of
  \<open>nhv.Parameters\<close> are at addresses that were unused before the call, and a write to any
  of them (to the array, to an object, to the table) leaves the value of \<open>hv\<close> unchanged.
  \<open>nhv.Allocations\<close> is the slice \<open>hv.Allocations\<close> itself: a write to its array is seen
  through \<open>hv\<close>.
\<close>

theorem Copy_deep_copy:
  "Copy h None = (None, h)
   \<and> (volume_allocated h hv \<longrightarrow>
       (\<exists>nhv h'. Copy h (Some hv) = (Some nhv, h')
          \<and> view h' nhv = view h hv
          \<and> view h' hv = view h hv
          \<and> (\<forall>a \<in> set (slice_addrs h' (Constraints nhv))
                   \<union> set (slice_addrs h' (RequestedCapabilities nhv))
                   \<union> set_option (Parameters nhv).
               next_addr h \<le> a
               \<and> view (write_array h' a xs) hv = view h hv
               \<and> view (write_constraint h' a c) hv = view h hv
               \<and> view (write_capability h' a k) hv = view h hv
               \<and> view (write_map h' a m) hv = view h hv)
          \<and> Allocations nhv = Allocations hv
          \<and> (\<forall>a. Allocations nhv = Some a \<longrightarrow>
                Allocations (view (write_array h' a xs) hv)
                  = Some (map (map_option (alloc_objs h')) xs))))"
proof (intro conjI impI)
  show "Copy h None = (None, h)" by simp
next
  assume al: "volume_allocated h hv"
  from Copy_Some [OF al] obtain nhv h' where
    C: "Copy h (Some hv) = (Some nhv, h')" and e: "extends h h'"
    and V: "view h' nhv = view h hv" and A: "Allocations nhv = Allocations hv"
    and F: "\<forall>a \<in> set (slice_addrs h' (Constraints nhv))
                   \<union> set (slice_addrs h' (RequestedCapabilities nhv))
                   \<union> set_option (Parameters nhv). next_addr h \<le> a"
    by blast
  have W: "view h'' hv = view h hv" if "extends h h''" for h''
    by (rule view_extends [OF al that])
  have "Allocations (view (write_array h' a xs) hv)
          = Some (map (map_option (alloc_objs h')) xs)" if "Allocations nhv = Some a" for a
    using that A by (simp add: view_def view_slice_def write_array_def)
  then show "\<exists>nhv h'. Copy h (Some hv) = (Some nhv, h')
          \<and> view h' nhv = view h hv
          \<and> view h' hv = view h hv
          \<and> (\<forall>a \<in> set (slice_addrs h' (Constraints nhv))
                   \<union> set (slice_addrs h' (RequestedCapabilities nhv))
                   \<union> set_option (Parameters nhv).
               next_addr h \<le> a
               \<and> view (write_array h' a xs) hv = view h hv
               \<and> view (write_constraint h' a c) hv = view h hv
               \<and> view (write_capability h' a k) hv = view h hv
               \<and> view (write_map h' a m) hv = view h hv)
          \<and> Allocations nhv = Allocations hv
          \<and> (\<forall>a. Allocations nhv = Some a \<longrightarrow>
                Allocations (view (write_array h' a xs) hv)
                  = Some (map (map_option (alloc_objs h')) xs))"
    using C V A F W [OF e] W [OF extends_write(1) [OF e]] W [OF extends_write(2) [OF e]]
      W [OF extends_write(3) [OF e]] W [OF extends_write(4) [OF e]]
    by (intro exI [of _ nhv] exI [of _ h']) (simp del: Copy.simps)
qed

text \<open>The theorem at the concrete store.\<close>

theorem Copy_deep_copy_witness:
  "volume_allocated example_heap example_volume
   \<and> fst (Copy example_heap (Some example_volume))
     = Some (example_volume\<lparr>Constraints := Some 8, RequestedCapabilities := Some 10,
               Parameters := Some 11\<rparr>)
   \<and> (\<exists>nhv h'. Copy example_heap (Some example_volume) = (Some nhv, h')
          \<and> view h' nhv = view example_heap example_volume
          \<and> view (write_array h' 8 []) example_volume = view example_heap example_volume
          \<and> Allocations (view (write_array h' 5 []) example_volume) = Some [])"
proof -
  have a: "volume_allocated example_heap example_volume"
    by (simp add: volume_allocated_def slice_allocated_def ptr_allocated_def
        example_heap_def example_volume_def)
  have c: "fst (Copy example_heap (Some example_volume))
     = Some (example_volume\<lparr>Constraints := Some 8, RequestedCapabilities := Some 10,
               Parameters := Some 11\<rparr>)"
    by (simp add: example_heap_def example_volume_def Let_def new_array_def new_constraint_def
        new_capability_def new_map_def)
  note T = Copy_deep_copy [where h = example_heap and hv = example_volume and xs = "[]"
      and c = "\<lparr>LTarget = [], RTarget = [], Operand = []\<rparr>"
      and k = "\<lparr>AttachmentMode = [], AccessMode = []\<rparr>" and m = Map.empty,
      THEN conjunct2, THEN mp, OF a]
  from T obtain nhv h' where C: "Copy example_heap (Some example_volume) = (Some nhv, h')"
    and V: "view h' nhv = view example_heap example_volume"
    and W: "\<forall>a \<in> set (slice_addrs h' (Constraints nhv))
                   \<union> set (slice_addrs h' (RequestedCapabilities nhv))
                   \<union> set_option (Parameters nhv).
               next_addr example_heap \<le> a
               \<and> view (write_array h' a []) example_volume = view example_heap example_volume
               \<and> view (write_constraint h' a \<lparr>LTarget = [], RTarget = [], Operand = []\<rparr>)
                    example_volume = view example_heap example_volume
               \<and> view (write_capability h' a \<lparr>AttachmentMode = [], AccessMode = []\<rparr>)
                    example_volume = view example_heap example_volume
               \<and> view (write_map h' a Map.empty) example_volume
                    = view example_heap example_volume"
    and A: "Allocations nhv = Allocations example_volume"
    and S: "\<forall>a. Allocations nhv = Some a \<longrightarrow>
                Allocations (view (write_array h' a []) example_volume)
                  = Some (map (map_option (alloc_objs h')) [])"
    by blast
  from C c have "Constraints nhv = Some 8" by (simp del: Copy.simps)
  then have "8 \<in> set (slice_addrs h' (Constraints nhv))" by (simp add: slice_addrs_def)
  with W have "view (write_array h' 8 []) example_volume = view example_heap example_volume"
    by blast
  moreover from A have "Allocations nhv = Some 5" by (simp add: example_volume_def)
  with S have "Allocations (view (write_array h' 5 []) example_volume) = Some []"
    by simp
  ultimately show ?thesis using a c C V by blast
qed

section \<open>The claim about the heartbeat monitor\<close>

text \<open>
  Claim C8. On the leader, with a non-negative \<open>MinHeartbeatTTL\<close>, renewing the heartbeat
  of a node has an outcome, and every outcome is a TTL \<open>t\<close> with
  \<open>MinHeartbeatTTL \<le> t \<le> 2 \<times> MinHeartbeatTTL\<close> together with a server that has a timer for
  the node, set to fire \<open>t\<close> after the renewal: as long as less than \<open>t\<close> has elapsed the
  timer is still there and has not marked the node down, and once \<open>t\<close> has elapsed the
  node is marked down and the timer is gone.
\<close>

theorem resetHeartbeatTimer_ttl:
  assumes "IsLeader s" and "0 \<le> MinHeartbeatTTL s"
  shows "resetHeartbeatTimer s node \<noteq> {}
     \<and> (\<forall>r \<in> resetHeartbeatTimer s node.
          \<exists>t s'. r = Inr (t, s')
            \<and> MinHeartbeatTTL s \<le> t \<and> t \<le> 2 * MinHeartbeatTTL s
            \<and> heartbeatTimers s' node = Some (clock s + t)
            \<and> (\<forall>d. 0 \<le> d \<and> d < t \<longrightarrow>
                  heartbeatTimers (advance s' d) node = Some (clock s + t)
                  \<and> invalidated (advance s' d) node = invalidated s node)
            \<and> (\<forall>d. t \<le> d \<longrightarrow>
                  heartbeatTimers (advance s' d) node = None
                  \<and> invalidated (advance s' d) node))"
proof
  show "resetHeartbeatTimer s node \<noteq> {}"
    using assms by (simp add: resetHeartbeatTimer_def)
next
  show "\<forall>r \<in> resetHeartbeatTimer s node.
          \<exists>t s'. r = Inr (t, s')
            \<and> MinHeartbeatTTL s \<le> t \<and> t \<le> 2 * MinHeartbeatTTL s
            \<and> heartbeatTimers s' node = Some (clock s + t)
            \<and> (\<forall>d. 0 \<le> d \<and> d < t \<longrightarrow>
                  heartbeatTimers (advance s' d) node = Some (clock s + t)
                  \<and> invalidated (advance s' d) node = invalidated s node)
            \<and> (\<forall>d. t \<le> d \<longrightarrow>
                  heartbeatTimers (advance s' d) node = None
                  \<and> invalidated (advance s' d) node)"
  proof
    fix r assume "r \<in> resetHeartbeatTimer s node"
    with assms(1) obtain t where r: "r = Inr (t, resetHeartbeatTimerLocked s node t)"
      and t: "MinHeartbeatTTL s \<le> t" "t \<le> 2 * MinHeartbeatTTL s"
      by (auto simp: resetHeartbeatTimer_def)
    show "\<exists>t s'. r = Inr (t, s')
            \<and> MinHeartbeatTTL s \<le> t \<and> t \<le> 2 * MinHeartbeatTTL s
            \<and> heartbeatTimers s' node = Some (clock s + t)
            \<and> (\<forall>d. 0 \<le> d \<and> d < t \<longrightarrow>
                  heartbeatTimers (advance s' d) node = Some (clock s + t)
                  \<and> invalidated (advance s' d) node = invalidated s node)
            \<and> (\<forall>d. t \<le> d \<longrightarrow>
                  heartbeatTimers (advance s' d) node = None
                  \<and> invalidated (advance s' d) node)"
      using r t
      by (intro exI [of _ t] exI [of _ "resetHeartbeatTimerLocked s node t"])
         (simp add: resetHeartbeatTimerLocked_def advance_def)
  qed
qed

text \<open>The theorem at a concrete server, whose renewal of the node \<open>test\<close> at time 100 may
  give the TTL 15: the timer is still there at 114 and has fired at 115.\<close>

theorem resetHeartbeatTimer_ttl_witness:
  "Inr (15, resetHeartbeatTimerLocked example_server ''test'' 15)
     \<in> resetHeartbeatTimer example_server ''test''
   \<and> heartbeatTimers (advance (resetHeartbeatTimerLocked example_server ''test'' 15) 14) ''test''
       = Some 115
   \<and> \<not> invalidated (advance (resetHeartbeatTimerLocked example_server ''test'' 15) 14) ''test''
   \<and> invalidated (advance (resetHeartbeatTimerLocked example_server ''test'' 15) 15) ''test''"
proof -
  have l: "IsLeader example_server" and m: "0 \<le> MinHeartbeatTTL example_server"
    by (simp_all add: example_server_def)
  have r: "Inr (15, resetHeartbeatTimerLocked example_server ''test'' 15)
             \<in> resetHeartbeatTimer example_server ''test''"
    by (simp add: resetHeartbeatTimer_def example_server_def)
  from resetHeartbeatTimer_ttl [OF l m, of "''test''"] r
  obtain t s' where e: "Inr (15, resetHeartbeatTimerLocked example_server ''test'' 15)
                          = (Inr (t, s') :: heartbeat_error + int \<times> Server)"
    and a: "\<forall>d. 0 \<le> d \<and> d < t \<longrightarrow>
              heartbeatTimers (advance s' d) ''test'' = Some (clock example_server + t)
              \<and> invalidated (advance s' d) ''test'' = invalidated example_server ''test''"
    and b: "\<forall>d. t \<le> d \<longrightarrow>
              heartbeatTimers (advance s' d) ''test'' = None
              \<and> invalidated (advance s' d) ''test''"
    by blast
  from e have t: "t = 15" and s': "s' = resetHeartbeatTimerLocked example_server ''test'' 15"
    by simp_all
  from a [rule_format, of 14] have
    "heartbeatTimers (advance s' 14) ''test'' = Some 115"
    "\<not> invalidated (advance s' 14) ''test''"
    by (simp_all add: t example_server_def)
  moreover from b [rule_format, of 15] have "invalidated (advance s' 15) ''test''"
    by (simp add: t)
  ultimately show ?thesis using r by (simp add: s')
qed

end
